theory Spec2Isabelle
  imports Main "HOL-Library.Multiset"
begin

section \<open>Warbler: data model (models.py)\<close>

text \<open>
  The four tables of models.py. Python strings are \<open>string\<close> (one \<open>char\<close> per
  character), integer columns and identifiers are \<open>int\<close>, and the \<open>DateTime\<close>
  column is an \<open>int\<close> (a point on the clock). Record fields carry a prefix
  (\<open>u_\<close>, \<open>m_\<close>, \<open>l_\<close>) because \<open>id\<close> and \<open>user_id\<close> occur in
  several tables.
\<close>

record follow =
  user_being_followed_id :: int
  user_following_id :: int

record user =
  u_id :: int
  u_email :: string
  u_username :: string
  u_image_url :: string
  u_header_image_url :: string
  u_bio :: string
  u_location :: string
  u_password :: string

record message =
  m_id :: int
  m_text :: string
  m_timestamp :: int
  m_user_id :: int

record like =
  l_user_id :: int
  l_message_id :: int

text \<open>The database: the rows of each table.\<close>

record db =
  users :: "user list"
  messages :: "message list"
  follows :: "follow list"
  likes :: "like list"

definition DEFAULT_IMAGE_URL :: string where
  "DEFAULT_IMAGE_URL =
     ''https://icon-library.com/images/default-user-icon/'' @ ''default-user-icon-28.jpg''"

definition DEFAULT_HEADER_IMAGE_URL :: string where
  "DEFAULT_HEADER_IMAGE_URL =
     ''https://images.unsplash.com/photo-1519751138087-5bf79df62d5b?ixlib='' @
     ''rb-4.0.3&ixid=MnwxMjA3fDB8MHxwaG90by1wYWdlfHx8fGVufDB8fHx8&auto=for'' @
     ''mat&fit=crop&w=2070&q=80''"

text \<open>
  Exceptions that reach the program from SQLAlchemy, from the database driver, from
  bcrypt and from attribute access on \<open>None\<close>.
\<close>

datatype exn = IntegrityError | DataError | MultipleResultsFound | AttributeError | ValueError

text \<open>
  What the program calls but does not define: bcrypt (flask_bcrypt) and the shape checks
  of the \<open>Email\<close> and \<open>URL\<close> validators (wtforms). They are parameters of the model.
  \<open>generate_password_hash\<close> may raise instead of returning a hash (flask_bcrypt
  raises \<open>ValueError\<close> for an empty password, and some versions of bcrypt for a
  password of more than 72 bytes).
\<close>

record lib =
  generate_password_hash :: "string \<Rightarrow> exn + string"
  check_password_hash :: "string \<Rightarrow> string \<Rightarrow> bool"
  email_shape :: "string \<Rightarrow> bool"
  url_shape :: "string \<Rightarrow> bool"

subsection \<open>The database engine: lookups, constraints, cascades\<close>

text \<open>\<open>db.session.get(User, i)\<close> and \<open>db.session.get(Message, i)\<close>: primary-key lookup.\<close>

definition get_user :: "db \<Rightarrow> int \<Rightarrow> user option" where
  "get_user d i = find (\<lambda>u. u_id u = i) (users d)"

definition get_message :: "db \<Rightarrow> int \<Rightarrow> message option" where
  "get_message d i = find (\<lambda>m. m_id m = i) (messages d)"

text \<open>
  INSERT under the constraints declared in models.py, on PostgreSQL (the engine the
  tests name). Storing a value in a \<open>String(n)\<close> column: a value of more than \<open>n\<close>
  characters is a \<open>DataError\<close>, unless the characters beyond \<open>n\<close> are all spaces, which
  are then cut off. A repeated primary key, a repeated \<open>unique=True\<close> column or a
  foreign key without its row is an \<open>IntegrityError\<close>. Before the statement is sent, the
  driver (psycopg2) refuses a string that holds a NUL character with a \<open>ValueError\<close>.
\<close>

definition fits :: "nat \<Rightarrow> string \<Rightarrow> bool" where
  "fits n s = (length s \<le> n \<or> list_all (\<lambda>c. c = CHR '' '') (drop n s))"

definition has_nul :: "string \<Rightarrow> bool" where
  "has_nul s = (CHR 0x00 \<in> set s)"

definition insert_user :: "db \<Rightarrow> user \<Rightarrow> exn + db" where
  "insert_user d u =
     (if has_nul (u_email u) \<or> has_nul (u_username u) \<or> has_nul (u_image_url u)
         \<or> has_nul (u_header_image_url u) \<or> has_nul (u_bio u) \<or> has_nul (u_location u)
         \<or> has_nul (u_password u)
      then Inl ValueError
      else if \<not> (fits 50 (u_email u) \<and> fits 30 (u_username u) \<and> fits 255 (u_image_url u)
             \<and> fits 255 (u_header_image_url u) \<and> fits 30 (u_location u)
             \<and> fits 100 (u_password u))
      then Inl DataError
      else
        (let row = u\<lparr>u_email := take 50 (u_email u), u_username := take 30 (u_username u),
                      u_image_url := take 255 (u_image_url u),
                      u_header_image_url := take 255 (u_header_image_url u),
                      u_location := take 30 (u_location u),
                      u_password := take 100 (u_password u)\<rparr>
         in if u_id row \<in> set (map u_id (users d))
               \<or> u_email row \<in> set (map u_email (users d))
               \<or> u_username row \<in> set (map u_username (users d))
            then Inl IntegrityError
            else Inr (d\<lparr>users := users d @ [row]\<rparr>)))"

definition insert_message :: "db \<Rightarrow> message \<Rightarrow> exn + db" where
  "insert_message d m =
     (if has_nul (m_text m) then Inl ValueError
      else if \<not> fits 140 (m_text m) then Inl DataError
      else
        (let row = m\<lparr>m_text := take 140 (m_text m)\<rparr>
         in if m_id row \<in> set (map m_id (messages d))
               \<or> m_user_id row \<notin> set (map u_id (users d))
            then Inl IntegrityError
            else Inr (d\<lparr>messages := messages d @ [row]\<rparr>)))"

definition insert_follow :: "db \<Rightarrow> follow \<Rightarrow> exn + db" where
  "insert_follow d f =
     (if f \<in> set (follows d)
         \<or> user_being_followed_id f \<notin> set (map u_id (users d))
         \<or> user_following_id f \<notin> set (map u_id (users d))
      then Inl IntegrityError
      else Inr (d\<lparr>follows := follows d @ [f]\<rparr>))"

definition insert_like :: "db \<Rightarrow> like \<Rightarrow> exn + db" where
  "insert_like d l =
     (if l \<in> set (likes d)
         \<or> l_user_id l \<notin> set (map u_id (users d))
         \<or> l_message_id l \<notin> set (map m_id (messages d))
      then Inl IntegrityError
      else Inr (d\<lparr>likes := likes d @ [l]\<rparr>))"

text \<open>
  \<open>db.delete(Message).filter_by(user_id=uid)\<close>: the rows go, and with them the likes
  whose \<open>message_id\<close> names one of them (\<open>ondelete='CASCADE'\<close> on \<open>likes.message_id\<close>).
\<close>

definition delete_messages_by_user :: "db \<Rightarrow> int \<Rightarrow> db" where
  "delete_messages_by_user d uid =
     (let gone = map m_id (filter (\<lambda>m. m_user_id m = uid) (messages d))
      in d\<lparr>messages := filter (\<lambda>m. m_user_id m \<noteq> uid) (messages d),
            likes := filter (\<lambda>l. l_message_id l \<notin> set gone) (likes d)\<rparr>)"

text \<open>
  \<open>db.session.delete(user)\<close>: the relationships \<open>following_users\<close>,
  \<open>followers_users\<close>, \<open>messages\<close> and \<open>likes\<close> of \<open>User\<close> are declared with
  \<open>cascade="all, delete-orphan"\<close>, so their rows are deleted with the user (and the
  likes of each deleted message with the message); then the user's row is deleted.
\<close>

definition session_delete_user :: "db \<Rightarrow> user \<Rightarrow> db" where
  "session_delete_user d u =
     (let uid = u_id u;
          d1 = d\<lparr>follows := filter (\<lambda>f. user_following_id f \<noteq> uid
                                        \<and> user_being_followed_id f \<noteq> uid) (follows d)\<rparr>;
          d2 = delete_messages_by_user d1 uid;
          d3 = d2\<lparr>likes := filter (\<lambda>l. l_user_id l \<noteq> uid) (likes d2)\<rparr>
      in d3\<lparr>users := filter (\<lambda>v. u_id v \<noteq> uid) (users d3)\<rparr>)"

section \<open>Form validation (forms.py)\<close>

text \<open>
  A field's validators are a list run in order (wtforms). \<open>raw\<close> is the submitted value
  of the field, \<open>None\<close> when the field was not submitted; for a \<open>StringField\<close>, a
  \<open>PasswordField\<close> and a \<open>TextAreaField\<close> the field's \<open>data\<close> is that value.
  \<open>Length lo hi\<close> carries wtforms' \<open>min\<close> and \<open>max\<close>, each \<open>-1\<close> when not given.
\<close>

datatype validator = InputRequired | Optional | Email | URL | Length int int

text \<open>
  \<open>str.strip()\<close> removes the characters for which \<open>str.isspace()\<close> holds; below code
  point 256 these are the following.
\<close>

definition isspace :: "char \<Rightarrow> bool" where
  "isspace c = ((of_char c :: nat) \<in> {9, 10, 11, 12, 13, 28, 29, 30, 31, 32, 133, 160})"

text \<open>
  The validation chain of one field, returning the number of errors recorded.
  \<open>InputRequired\<close> on a missing or empty value clears the errors, records its own and
  stops the chain; \<open>Optional\<close> on a missing or blank value clears the errors and stops
  the chain; every other validator records an error and lets the chain go on.
\<close>

fun run_validation_chain :: "lib \<Rightarrow> validator list \<Rightarrow> string option \<Rightarrow> nat \<Rightarrow> nat" where
  "run_validation_chain L [] raw errs = errs"
| "run_validation_chain L (InputRequired # vs) raw errs =
     (case raw of
        None \<Rightarrow> 1
      | Some s \<Rightarrow> if s = [] then 1 else run_validation_chain L vs raw errs)"
| "run_validation_chain L (Optional # vs) raw errs =
     (case raw of
        None \<Rightarrow> 0
      | Some s \<Rightarrow> if list_all isspace s then 0 else run_validation_chain L vs raw errs)"
| "run_validation_chain L (Email # vs) raw errs =
     (case raw of
        None \<Rightarrow> run_validation_chain L vs raw (errs + 1)
      | Some s \<Rightarrow> run_validation_chain L vs raw (if email_shape L s then errs else errs + 1))"
| "run_validation_chain L (URL # vs) raw errs =
     (case raw of
        None \<Rightarrow> run_validation_chain L vs raw (errs + 1)
      | Some s \<Rightarrow> run_validation_chain L vs raw (if url_shape L s then errs else errs + 1))"
| "run_validation_chain L (Length lo hi # vs) raw errs =
     (let n = (case raw of None \<Rightarrow> 0 | Some s \<Rightarrow> int (length s))
      in run_validation_chain L vs raw
           (if lo \<le> n \<and> (hi = -1 \<or> n \<le> hi) then errs else errs + 1))"

definition field_valid :: "lib \<Rightarrow> validator list \<Rightarrow> string option \<Rightarrow> bool" where
  "field_valid L vs raw = (run_validation_chain L vs raw 0 = 0)"

text \<open>
  The request as a route sees it: the method, whether the anti-forgery token of the form
  is accepted, the submitted form fields, and the two values the surroundings supply
  while the request runs: the clock (\<open>datetime.utcnow\<close>) and the next value of the
  identity sequence (\<open>db.Identity()\<close>).
\<close>

datatype http_method = GET | POST

record request =
  req_method :: http_method
  csrf_ok :: bool
  formdata :: "string \<Rightarrow> string option"
  utcnow :: int
  identity :: int

text \<open>\<open>FlaskForm.validate_on_submit\<close> of \<open>CSRFProtection\<close>, a form with no fields.\<close>

definition is_submitted :: "request \<Rightarrow> bool" where
  "is_submitted r = (req_method r = POST)"

definition CSRFProtection_validate_on_submit :: "request \<Rightarrow> bool" where
  "CSRFProtection_validate_on_submit r = (is_submitted r \<and> csrf_ok r)"

definition MessageForm_text :: "validator list" where
  "MessageForm_text = [InputRequired]"

definition MessageForm_validate_on_submit :: "lib \<Rightarrow> request \<Rightarrow> bool" where
  "MessageForm_validate_on_submit L r =
     (is_submitted r \<and> csrf_ok r \<and> field_valid L MessageForm_text (formdata r ''text''))"

definition UserAddForm_username :: "validator list" where
  "UserAddForm_username = [InputRequired, Length (-1) 30]"

definition UserAddForm_email :: "validator list" where
  "UserAddForm_email = [InputRequired, Email, Length (-1) 50]"

definition UserAddForm_password :: "validator list" where
  "UserAddForm_password = [InputRequired, Length 6 50]"

definition UserAddForm_image_url :: "validator list" where
  "UserAddForm_image_url = [Optional, URL, Length (-1) 255]"

definition UserAddForm_validate_on_submit :: "lib \<Rightarrow> request \<Rightarrow> bool" where
  "UserAddForm_validate_on_submit L r =
     (is_submitted r \<and> csrf_ok r
      \<and> field_valid L UserAddForm_username (formdata r ''username'')
      \<and> field_valid L UserAddForm_email (formdata r ''email'')
      \<and> field_valid L UserAddForm_password (formdata r ''password'')
      \<and> field_valid L UserAddForm_image_url (formdata r ''image_url''))"

section \<open>Model methods (models.py)\<close>

text \<open>
  Relationship attributes are read from the rows of the database as they are when the
  attribute is read: every request starts with a fresh ORM session, and every route
  commits right after a change, which expires what the session had loaded.
\<close>

definition following_users :: "db \<Rightarrow> user \<Rightarrow> follow list" where
  "following_users d self = filter (\<lambda>f. user_following_id f = u_id self) (follows d)"

definition followers_users :: "db \<Rightarrow> user \<Rightarrow> follow list" where
  "followers_users d self = filter (\<lambda>f. user_being_followed_id f = u_id self) (follows d)"

text \<open>
  \<open>Follow.followed_user\<close> joins on \<open>user_following_id\<close> and \<open>Follow.following_user\<close>
  on \<open>user_being_followed_id\<close>, as their \<open>foreign_keys\<close> say.
\<close>

definition followed_user :: "db \<Rightarrow> follow \<Rightarrow> user option" where
  "followed_user d f = get_user d (user_following_id f)"

definition following_user :: "db \<Rightarrow> follow \<Rightarrow> user option" where
  "following_user d f = get_user d (user_being_followed_id f)"

definition user_likes :: "db \<Rightarrow> user \<Rightarrow> like list" where
  "user_likes d self = filter (\<lambda>l. l_user_id l = u_id self) (likes d)"

definition following :: "db \<Rightarrow> user \<Rightarrow> user option list" where
  "following d self = map (following_user d) (following_users d self)"

definition followers :: "db \<Rightarrow> user \<Rightarrow> user option list" where
  "followers d self = map (followed_user d) (followers_users d self)"

definition liked_messages :: "db \<Rightarrow> user \<Rightarrow> message option list" where
  "liked_messages d self = map (\<lambda>l. get_message d (l_message_id l)) (user_likes d self)"


definition message_eq :: "message option \<Rightarrow> message \<Rightarrow> bool" where
  "message_eq x other = (case x of None \<Rightarrow> False | Some v \<Rightarrow> m_id v = m_id other)"

text \<open>
  \<open>User.signup\<close> hashes the password (which may raise), builds the row and adds it to
  the session; the INSERT runs at the caller's commit (\<open>insert_user\<close>). \<open>ident\<close> is
  the value the identity column receives.
\<close>

definition User_signup ::
  "lib \<Rightarrow> int \<Rightarrow> string \<Rightarrow> string \<Rightarrow> string \<Rightarrow> string \<Rightarrow> exn + user" where
  "User_signup L ident username email password image_url =
     (case generate_password_hash L password of
        Inl e \<Rightarrow> Inl e
      | Inr hashed_pwd \<Rightarrow>
          Inr \<lparr>u_id = ident, u_email = email, u_username = username, u_image_url = image_url,
               u_header_image_url = DEFAULT_HEADER_IMAGE_URL, u_bio = [], u_location = [],
               u_password = hashed_pwd\<rparr>)"


text \<open>\<open>User.follow\<close> adds the row (inserted at the next flush); \<open>User.unfollow\<close> is a DELETE.\<close>

definition follow :: "db \<Rightarrow> user \<Rightarrow> user \<Rightarrow> exn + db" where
  "follow d self other_user =
     insert_follow d \<lparr>user_being_followed_id = u_id other_user, user_following_id = u_id self\<rparr>"




definition User_toggle_like :: "db \<Rightarrow> user \<Rightarrow> message \<Rightarrow> exn + db" where
  "User_toggle_like d self msg =
     (if list_ex (\<lambda>x. message_eq x msg) (liked_messages d self)
      then Inr (d\<lparr>likes := filter (\<lambda>l. \<not> (l_user_id l = u_id self \<and> l_message_id l = m_id msg))
                                  (likes d)\<rparr>)
      else insert_like d \<lparr>l_user_id = u_id self, l_message_id = m_id msg\<rparr>)"

section \<open>Routes (app.py)\<close>

text \<open>The Flask session: the logged-in user's id under \<open>CURR_USER_KEY\<close>, and the flashes.\<close>

record session =
  curr_user :: "int option"
  flashes :: "(string \<times> string) list"

text \<open>
  What a view returns: a redirect, a rendered template with its keyword arguments and
  status, or the error response of an \<open>abort\<close> no handler is registered for. The
  templates are not part of the sources.
\<close>

datatype template_arg =
    V_form "(string \<times> string option) list"
  | V_user "user option"
  | V_message message
  | V_messages "message list"

datatype response =
    Redirect string
  | Render_template string "(string \<times> template_arg) list" nat
  | Http_error nat

text \<open>
  A route maps the request, the session and the database to the response, the session
  and the database after the commit. \<open>Inl e\<close>: the exception \<open>e\<close> left the view uncaught;
  nothing was committed.
\<close>

type_synonym outcome = "response \<times> session \<times> db"

definition add_user_to_g :: "session \<Rightarrow> db \<Rightarrow> user option" where
  "add_user_to_g sess d = (case curr_user sess of None \<Rightarrow> None | Some i \<Rightarrow> get_user d i)"

definition do_login :: "session \<Rightarrow> user \<Rightarrow> session" where
  "do_login sess u = sess\<lparr>curr_user := Some (u_id u)\<rparr>"

definition do_logout :: "session \<Rightarrow> session" where
  "do_logout sess = sess\<lparr>curr_user := None\<rparr>"

definition flash :: "string \<Rightarrow> string \<Rightarrow> session \<Rightarrow> session" where
  "flash msg category sess = sess\<lparr>flashes := flashes sess @ [(category, msg)]\<rparr>"

definition page_not_found :: response where
  "page_not_found = Render_template ''404.jinja'' [] 404"

text \<open>\<open>abort(code)\<close>: the only registered error handler is the one for 404.\<close>

definition abort :: "nat \<Rightarrow> response" where
  "abort code = (if code = 404 then page_not_found else Http_error code)"

text \<open>The outcome every route gives a request it does not authorize.\<close>

definition unauthorized :: "session \<Rightarrow> db \<Rightarrow> outcome" where
  "unauthorized sess d = (Redirect ''/'', flash ''Access unauthorized.'' ''danger'' sess, d)"

text \<open>\<open>str(i)\<close> of the f-strings.\<close>

fun str_nat :: "nat \<Rightarrow> string" where
  "str_nat n =
     (if n < 10 then [''0123456789'' ! n]
      else str_nat (n div 10) @ [''0123456789'' ! (n mod 10)])"

declare str_nat.simps [simp del]

definition str_int :: "int \<Rightarrow> string" where
  "str_int i = (if i < 0 then ''-'' @ str_nat (nat (- i)) else str_nat (nat i))"

text \<open>
  The data of a form field as the template sees it: a form reads the submitted values
  only when the request is a submission; otherwise its fields hold \<open>None\<close>.
\<close>

definition field_data :: "request \<Rightarrow> string \<Rightarrow> string option" where
  "field_data r k = (if is_submitted r then formdata r k else None)"

definition UserAddForm_fields :: "request \<Rightarrow> (string \<times> string option) list" where
  "UserAddForm_fields r =
     map (\<lambda>k. (k, field_data r k)) [''username'', ''email'', ''password'', ''image_url'']"

text \<open>
  \<open>signup\<close>. The \<open>try\<close> block holds \<open>User.signup\<close> and the commit; of what they raise
  only \<open>IntegrityError\<close> is caught. The three required fields are present once the form
  has validated; the last case of the outer \<open>case\<close> is where
  \<open>generate_password_hash(None)\<close> would raise.
\<close>

definition signup :: "lib \<Rightarrow> request \<Rightarrow> session \<Rightarrow> db \<Rightarrow> exn + outcome" where
  "signup L r sess d =
     (let sess1 = do_logout sess;
          page = Render_template ''users/signup.jinja'' [(''form'', V_form (UserAddForm_fields r))] 200
      in if UserAddForm_validate_on_submit L r then
           (case (formdata r ''username'', formdata r ''email'', formdata r ''password'') of
              (Some username, Some email, Some password) \<Rightarrow>
                (let image_url = (case formdata r ''image_url'' of
                                    None \<Rightarrow> DEFAULT_IMAGE_URL
                                  | Some s \<Rightarrow> if s = [] then DEFAULT_IMAGE_URL else s)
                 in case (case User_signup L (identity r) username email password image_url of
                            Inl e \<Rightarrow> Inl e
                          | Inr u \<Rightarrow>
                              (case insert_user d u of
                                 Inl e \<Rightarrow> Inl e
                               | Inr d' \<Rightarrow> Inr (u, d'))) of
                      Inl IntegrityError \<Rightarrow>
                        Inr (page, flash ''Username already taken'' ''danger'' sess1, d)
                    | Inl e \<Rightarrow> Inl e
                    | Inr (u, d') \<Rightarrow> Inr (Redirect ''/'', do_login sess1 u, d'))
            | _ \<Rightarrow> Inl ValueError)
         else Inr (page, sess1, d))"

text \<open>
  The profile pages. \<open>db.get_or_404\<close> aborts with 404 when the row is missing;
  \<open>show_likes\<close> reads the row with \<open>db.session.get\<close> and renders whatever it got.
\<close>

definition show_user :: "session \<Rightarrow> db \<Rightarrow> int \<Rightarrow> outcome" where
  "show_user sess d user_id =
     (case add_user_to_g sess d of
        None \<Rightarrow> unauthorized sess d
      | Some g_user \<Rightarrow>
          (case get_user d user_id of
             None \<Rightarrow> (abort 404, sess, d)
           | Some u \<Rightarrow> (Render_template ''users/show.jinja'' [(''user'', V_user (Some u))] 200, sess, d)))"

definition show_following :: "session \<Rightarrow> db \<Rightarrow> int \<Rightarrow> outcome" where
  "show_following sess d user_id =
     (case add_user_to_g sess d of
        None \<Rightarrow> unauthorized sess d
      | Some g_user \<Rightarrow>
          (case get_user d user_id of
             None \<Rightarrow> (abort 404, sess, d)
           | Some u \<Rightarrow>
               (Render_template ''users/following.jinja'' [(''user'', V_user (Some u))] 200, sess, d)))"

definition show_followers :: "session \<Rightarrow> db \<Rightarrow> int \<Rightarrow> outcome" where
  "show_followers sess d user_id =
     (case add_user_to_g sess d of
        None \<Rightarrow> unauthorized sess d
      | Some g_user \<Rightarrow>
          (case get_user d user_id of
             None \<Rightarrow> (abort 404, sess, d)
           | Some u \<Rightarrow>
               (Render_template ''users/followers.jinja'' [(''user'', V_user (Some u))] 200, sess, d)))"

definition show_likes :: "session \<Rightarrow> db \<Rightarrow> int \<Rightarrow> outcome" where
  "show_likes sess d user_id =
     (case add_user_to_g sess d of
        None \<Rightarrow> unauthorized sess d
      | Some g_user \<Rightarrow>
          (Render_template ''users/likes.jinja'' [(''user'', V_user (get_user d user_id))] 200,
           sess, d))"

definition show_message :: "session \<Rightarrow> db \<Rightarrow> int \<Rightarrow> outcome" where
  "show_message sess d message_id =
     (case add_user_to_g sess d of
        None \<Rightarrow> unauthorized sess d
      | Some g_user \<Rightarrow>
          (case get_message d message_id of
             None \<Rightarrow> (abort 404, sess, d)
           | Some msg \<Rightarrow>
               (Render_template ''messages/show.jinja'' [(''message'', V_message msg)] 200, sess, d)))"

text \<open>\<open>toggle_like\<close>, the route \<open>POST /messages/<message_id>/like\<close>.\<close>

definition toggle_like :: "request \<Rightarrow> session \<Rightarrow> db \<Rightarrow> int \<Rightarrow> exn + outcome" where
  "toggle_like r sess d message_id =
     (if \<not> CSRFProtection_validate_on_submit r then Inr (unauthorized sess d)
      else
        (case add_user_to_g sess d of
           None \<Rightarrow> Inr (unauthorized sess d)
         | Some g_user \<Rightarrow>
             (case get_message d message_id of
                None \<Rightarrow> Inr (abort 404, sess, d)
              | Some liked_message \<Rightarrow>
                  (let redirection_url = (case formdata r ''came_from'' of
                                            None \<Rightarrow> ''/'' | Some s \<Rightarrow> s)
                   in if m_user_id liked_message = u_id g_user then Inr (abort 403, sess, d)
                      else
                        (case User_toggle_like d g_user liked_message of
                           Inl e \<Rightarrow> Inl e
                         | Inr d' \<Rightarrow> Inr (Redirect redirection_url, sess, d'))))))"

text \<open>\<open>delete_user\<close>, the route \<open>POST /users/delete\<close>.\<close>

definition delete_user :: "request \<Rightarrow> session \<Rightarrow> db \<Rightarrow> outcome" where
  "delete_user r sess d =
     (if \<not> CSRFProtection_validate_on_submit r then unauthorized sess d
      else
        (case add_user_to_g sess d of
           None \<Rightarrow> unauthorized sess d
         | Some g_user \<Rightarrow>
             (let sess1 = do_logout sess;
                  d1 = delete_messages_by_user d (u_id g_user);
                  d2 = session_delete_user d1 g_user
              in (Redirect ''/signup'', sess1, d2))))"

text \<open>
  \<open>add_message\<close>, the route \<open>/messages/new\<close>. \<open>g.user.messages.append(msg)\<close> gives the
  message its \<open>user_id\<close>; the id and the timestamp are the column defaults. A text of
  \<open>None\<close> would break \<open>nullable=False\<close>.
\<close>

definition add_message :: "lib \<Rightarrow> request \<Rightarrow> session \<Rightarrow> db \<Rightarrow> exn + outcome" where
  "add_message L r sess d =
     (case add_user_to_g sess d of
        None \<Rightarrow> Inr (unauthorized sess d)
      | Some g_user \<Rightarrow>
          if MessageForm_validate_on_submit L r then
            (case formdata r ''text'' of
               None \<Rightarrow> Inl IntegrityError
             | Some text \<Rightarrow>
                 (case insert_message d \<lparr>m_id = identity r, m_text = text,
                                         m_timestamp = utcnow r, m_user_id = u_id g_user\<rparr> of
                    Inl e \<Rightarrow> Inl e
                  | Inr d' \<Rightarrow> Inr (Redirect (''/users/'' @ str_int (u_id g_user)), sess, d')))
          else Inr (Render_template ''messages/create.jinja''
                      [(''form'', V_form [(''text'', field_data r ''text'')])] 200, sess, d))"

text \<open>
  \<open>homepage\<close>. \<open>user.id\<close> of a followed user that is \<open>None\<close> raises.

  The query is \<open>SELECT ... WHERE user_id IN ids ORDER BY timestamp DESC LIMIT n\<close>. SQL
  fixes the order of the rows only as far as the \<open>ORDER BY\<close> keys differ, so the query
  has a set of possible answers: the first \<open>n\<close> rows of any arrangement of the matching
  rows in which the timestamps never increase. \<open>homepage\<close> is therefore a relation
  between the request's inputs and its possible results.
\<close>

fun user_ids :: "user option list \<Rightarrow> exn + int list" where
  "user_ids [] = Inr []"
| "user_ids (None # xs) = Inl AttributeError"
| "user_ids (Some u # xs) = (case user_ids xs of Inl e \<Rightarrow> Inl e | Inr is \<Rightarrow> Inr (u_id u # is))"

definition select_messages :: "db \<Rightarrow> int list \<Rightarrow> nat \<Rightarrow> message list \<Rightarrow> bool" where
  "select_messages d ids n out =
     (\<exists>rows. mset rows = mset (filter (\<lambda>m. m_user_id m \<in> set ids) (messages d))
           \<and> sorted_wrt (\<lambda>a b. m_timestamp b \<le> m_timestamp a) rows
           \<and> out = take n rows)"

definition homepage :: "session \<Rightarrow> db \<Rightarrow> exn + outcome \<Rightarrow> bool" where
  "homepage sess d res =
     (case add_user_to_g sess d of
        None \<Rightarrow> res = Inr (Render_template ''home-anon.jinja'' [] 200, sess, d)
      | Some g_user \<Rightarrow>
          (case user_ids (following d g_user) of
             Inl e \<Rightarrow> res = Inl e
           | Inr ids \<Rightarrow>
               (\<exists>msgs. select_messages d (ids @ [u_id g_user]) 100 msgs
                    \<and> res = Inr (Render_template ''home.jinja''
                                   [(''messages'', V_messages msgs)] 200, sess, d))))"

text \<open>
  The messages the home feed of \<open>u\<close> draws from, in the words of the specification:
  those written by \<open>u\<close> or by a user \<open>u\<close> follows.
\<close>

definition own_or_followed_messages :: "db \<Rightarrow> user \<Rightarrow> message list" where
  "own_or_followed_messages d u =
     filter (\<lambda>m. m_user_id m = u_id u
                \<or> \<lparr>user_being_followed_id = m_user_id m, user_following_id = u_id u\<rparr>
                     \<in> set (follows d))
       (messages d)"

section \<open>Database invariants and sample data\<close>

text \<open>Every foreign key of models.py names a row that exists.\<close>

definition referential_integrity :: "db \<Rightarrow> bool" where
  "referential_integrity d =
     ((\<forall>m \<in> set (messages d). m_user_id m \<in> set (map u_id (users d)))
      \<and> (\<forall>f \<in> set (follows d). user_being_followed_id f \<in> set (map u_id (users d))
                                \<and> user_following_id f \<in> set (map u_id (users d)))
      \<and> (\<forall>l \<in> set (likes d). l_user_id l \<in> set (map u_id (users d))
                              \<and> l_message_id l \<in> set (map m_id (messages d))))"

text \<open>
  Sample data in the style of the test suites: two users, one message each (written at
  the same instant), \<open>u1\<close> follows \<open>u2\<close> and likes the message of \<open>u2\<close>.
\<close>

definition ex_lib :: lib where
  "ex_lib = \<lparr>generate_password_hash =
               (\<lambda>p. if p = [] \<or> 72 < length p then Inl ValueError else Inr (''$2b$'' @ p)),
             check_password_hash = (\<lambda>h p. h = ''$2b$'' @ p),
             email_shape = (\<lambda>s. CHR ''@'' \<in> set s),
             url_shape = (\<lambda>s. take 4 s = ''http'')\<rparr>"

definition ex_u1 :: user where
  "ex_u1 = \<lparr>u_id = 1, u_email = ''u1@email.com'', u_username = ''u1'',
            u_image_url = ''http://img/1'', u_header_image_url = ''http://img/h'',
            u_bio = [], u_location = [], u_password = ''$2b$password''\<rparr>"

definition ex_u2 :: user where
  "ex_u2 = \<lparr>u_id = 2, u_email = ''u2@email.com'', u_username = ''u2'',
            u_image_url = ''http://img/2'', u_header_image_url = ''http://img/h'',
            u_bio = [], u_location = [], u_password = ''$2b$password''\<rparr>"

definition ex_m1 :: message where
  "ex_m1 = \<lparr>m_id = 1, m_text = ''m1-text'', m_timestamp = 1000, m_user_id = 1\<rparr>"

definition ex_m2 :: message where
  "ex_m2 = \<lparr>m_id = 2, m_text = ''m2-text'', m_timestamp = 1000, m_user_id = 2\<rparr>"

definition ex_db :: db where
  "ex_db = \<lparr>users = [ex_u1, ex_u2], messages = [ex_m1, ex_m2],
            follows = [\<lparr>user_being_followed_id = 2, user_following_id = 1\<rparr>],
            likes = [\<lparr>l_user_id = 1, l_message_id = 2\<rparr>]\<rparr>"

definition ex_session :: session where
  "ex_session = \<lparr>curr_user = Some 1, flashes = []\<rparr>"

definition ex_post :: "(string \<times> string) list \<Rightarrow> request" where
  "ex_post kvs = \<lparr>req_method = POST, csrf_ok = True, formdata = map_of kvs,
                     utcnow = 2000, identity = 3\<rparr>"

text \<open>The duplicate signup of the test suite: the username \<open>u1\<close> is taken.\<close>

definition ex_dupe :: request where
  "ex_dupe = ex_post [(''username'', ''u1''), (''password'', ''password''),
                      (''email'', ''newEmail@email.com''), (''image_url'', '''')]"

text \<open>
  The same signup with an image URL of 256 tab characters: blank for \<open>Optional()\<close>,
  but not empty.
\<close>

definition ex_dupe_blank_image :: request where
  "ex_dupe_blank_image =
     ex_post [(''username'', ''u1''), (''password'', ''password''),
              (''email'', ''newEmail@email.com''), (''image_url'', replicate 256 (CHR 0x09))]"

section \<open>Properties\<close>

subsection \<open>Lookups and field validators\<close>

lemma get_user_Some: "get_user d i = Some u \<Longrightarrow> u \<in> set (users d) \<and> u_id u = i"
  by (auto simp: get_user_def find_Some_iff)

lemma get_user_None: "get_user d i = None \<longleftrightarrow> i \<notin> set (map u_id (users d))"
  by (auto simp: get_user_def find_None_iff)

lemma get_message_Some: "get_message d i = Some m \<Longrightarrow> m \<in> set (messages d) \<and> m_id m = i"
  by (auto simp: get_message_def find_Some_iff)

lemma get_message_None: "get_message d i = None \<longleftrightarrow> i \<notin> set (map m_id (messages d))"
  by (auto simp: get_message_def find_None_iff)

lemma field_valid_password:
  "field_valid L UserAddForm_password raw \<longleftrightarrow>
     (\<exists>pw. raw = Some pw \<and> 6 \<le> length pw \<and> length pw \<le> 50)"
  by (cases raw) (auto simp: field_valid_def UserAddForm_password_def)

lemma field_valid_username:
  "field_valid L UserAddForm_username raw \<longleftrightarrow>
     (\<exists>s. raw = Some s \<and> s \<noteq> [] \<and> length s \<le> 30)"
  by (cases raw) (auto simp: field_valid_def UserAddForm_username_def)

lemma field_valid_email:
  "field_valid L UserAddForm_email raw \<longleftrightarrow>
     (\<exists>s. raw = Some s \<and> s \<noteq> [] \<and> email_shape L s \<and> length s \<le> 50)"
  by (cases raw) (auto simp: field_valid_def UserAddForm_email_def)

lemma field_valid_text:
  "field_valid L MessageForm_text raw \<longleftrightarrow> (\<exists>s. raw = Some s \<and> s \<noteq> [])"
  by (cases raw) (auto simp: field_valid_def MessageForm_text_def)

lemma signup_invalid:
  "\<not> UserAddForm_validate_on_submit L r \<Longrightarrow>
     signup L r sess d =
       Inr (Render_template ''users/signup.jinja'' [(''form'', V_form (UserAddForm_fields r))] 200,
            do_logout sess, d)"
  by (simp add: signup_def)

lemma ex_post_submitted: "CSRFProtection_validate_on_submit (ex_post kvs)"
  by (simp add: CSRFProtection_validate_on_submit_def is_submitted_def ex_post_def)

lemma ex_g_user: "add_user_to_g ex_session ex_db = Some ex_u1"
  by (simp add: add_user_to_g_def ex_session_def get_user_def ex_db_def ex_u1_def)

subsection \<open>Self-likes\<close>

text \<open>
  C2. When the logged-in user (with an accepted anti-forgery token) toggles a like on a
  message of their own, the route answers with the 403 response, which is not the
  redirect of the unauthorized outcome, and the session and the database, the likes
  among them, are what they were.
\<close>

theorem toggle_like_own_message_forbidden:
  assumes "CSRFProtection_validate_on_submit r"
    and "add_user_to_g sess d = Some u"
    and "get_message d message_id = Some m"
    and "m_user_id m = u_id u"
  shows "toggle_like r sess d message_id = Inr (Http_error 403, sess, d)
         \<and> Http_error 403 \<noteq> fst (unauthorized sess d)"
  using assms by (simp add: toggle_like_def abort_def unauthorized_def)

theorem toggle_like_own_message_forbidden_witness:
  "CSRFProtection_validate_on_submit (ex_post [])
   \<and> add_user_to_g ex_session ex_db = Some ex_u1
   \<and> get_message ex_db 1 = Some ex_m1
   \<and> m_user_id ex_m1 = u_id ex_u1
   \<and> toggle_like (ex_post []) ex_session ex_db 1 = Inr (Http_error 403, ex_session, ex_db)"
proof -
  have a: "CSRFProtection_validate_on_submit (ex_post [])"
    by (rule ex_post_submitted)
  have b: "add_user_to_g ex_session ex_db = Some ex_u1"
    by (rule ex_g_user)
  have c: "get_message ex_db 1 = Some ex_m1"
    by (simp add: get_message_def ex_db_def ex_m1_def)
  have e: "m_user_id ex_m1 = u_id ex_u1"
    by (simp add: ex_m1_def ex_u1_def)
  from toggle_like_own_message_forbidden [OF a b c e] a b c e show ?thesis by simp
qed

subsection \<open>Password length at signup\<close>

text \<open>
  C10. The password field of the signup form validates exactly when a password of 6 to
  50 characters (both bounds included) was submitted; when it does not validate, the
  signup route shows the form again and the database is what it was, so no user row is
  created.
\<close>

theorem signup_password_length:
  "(field_valid L UserAddForm_password (formdata r ''password'') \<longleftrightarrow>
      (\<exists>pw. formdata r ''password'' = Some pw \<and> 6 \<le> length pw \<and> length pw \<le> 50))
   \<and> (\<not> field_valid L UserAddForm_password (formdata r ''password'') \<longrightarrow>
        signup L r sess d =
          Inr (Render_template ''users/signup.jinja'' [(''form'', V_form (UserAddForm_fields r))] 200,
               do_logout sess, d))"
proof (intro conjI impI)
  show "field_valid L UserAddForm_password (formdata r ''password'') \<longleftrightarrow>
      (\<exists>pw. formdata r ''password'' = Some pw \<and> 6 \<le> length pw \<and> length pw \<le> 50)"
    by (rule field_valid_password)
next
  assume "\<not> field_valid L UserAddForm_password (formdata r ''password'')"
  then have "\<not> UserAddForm_validate_on_submit L r"
    by (simp add: UserAddForm_validate_on_submit_def)
  then show "signup L r sess d =
          Inr (Render_template ''users/signup.jinja'' [(''form'', V_form (UserAddForm_fields r))] 200,
               do_logout sess, d)"
    by (rule signup_invalid)
qed

theorem signup_password_length_witness:
  "\<not> field_valid ex_lib UserAddForm_password
        (formdata (ex_post [(''username'', ''u3''), (''email'', ''u3@email.com''),
                            (''password'', ''passw'')]) ''password'')
   \<and> signup ex_lib (ex_post [(''username'', ''u3''), (''email'', ''u3@email.com''),
                             (''password'', ''passw'')]) ex_session ex_db =
          Inr (Render_template ''users/signup.jinja''
                 [(''form'', V_form [(''username'', Some ''u3''), (''email'', Some ''u3@email.com''),
                                     (''password'', Some ''passw''), (''image_url'', None)])] 200,
               \<lparr>curr_user = None, flashes = []\<rparr>, ex_db)"
  using signup_password_length [of ex_lib "ex_post [(''username'', ''u3''),
           (''email'', ''u3@email.com''), (''password'', ''passw'')]" ex_session ex_db]
  by (simp add: ex_post_def UserAddForm_fields_def field_data_def is_submitted_def
      do_logout_def ex_session_def)

subsection \<open>Authentication\<close>

lemma filter_key_unique:
  "distinct (map f xs) \<Longrightarrow> x \<in> set xs \<Longrightarrow> filter (\<lambda>y. f y = f x) xs = [x]"
proof (induction xs)
  case Nil
  then show ?case by simp
next
  case (Cons a xs)
  show ?case
  proof (cases "a = x")
    case True
    with Cons.prems have "f x \<notin> f ` set xs" by simp
    then have "filter (\<lambda>y. f y = f x) xs = []"
      by (force simp: filter_empty_conv image_iff)
    with True show ?thesis by simp
  next
    case False
    with Cons.prems have "x \<in> set xs" and "f a \<noteq> f x" by auto
    with Cons show ?thesis by simp
  qed
qed



subsection \<open>Missing rows\<close>

text \<open>
  C9. A logged-in request for the likes page of user 987654321, an id with no row:
  \<open>show_likes\<close> returns the rendering of the likes template with \<open>user=None\<close> and
  status 200, which is not the not-found page; \<open>show_user\<close>, \<open>show_following\<close> and
  \<open>show_followers\<close> return the not-found page for the same id.
\<close>

theorem show_likes_missing_user:
  "show_likes ex_session ex_db 987654321 =
     (Render_template ''users/likes.jinja'' [(''user'', V_user None)] 200, ex_session, ex_db)
   \<and> fst (show_likes ex_session ex_db 987654321) \<noteq> page_not_found
   \<and> fst (show_user ex_session ex_db 987654321) = page_not_found
   \<and> fst (show_following ex_session ex_db 987654321) = page_not_found
   \<and> fst (show_followers ex_session ex_db 987654321) = page_not_found"
proof -
  have "get_user ex_db 987654321 = None"
    by (simp add: get_user_def ex_db_def ex_u1_def ex_u2_def)
  then show ?thesis
    by (simp add: show_likes_def show_user_def show_following_def show_followers_def
        ex_g_user abort_def page_not_found_def)
qed

subsection \<open>Posting a message\<close>

text \<open>A missing or empty text does not validate: the form is shown again, no row is added.\<close>

lemma add_message_text_missing:
  assumes "add_user_to_g sess d = Some u"
    and "formdata r ''text'' = None \<or> formdata r ''text'' = Some []"
  shows "add_message L r sess d =
           Inr (Render_template ''messages/create.jinja''
                  [(''form'', V_form [(''text'', field_data r ''text'')])] 200, sess, d)"
proof -
  from assms(2) have "\<not> MessageForm_validate_on_submit L r"
    by (auto simp: MessageForm_validate_on_submit_def field_valid_text)
  with assms(1) show ?thesis by (simp add: add_message_def)
qed

text \<open>
  C8. A logged-in POST of a text of 141 letters: the form validates (its only validator
  is \<open>InputRequired\<close>), the route goes on to the INSERT, and the request ends in the
  \<open>DataError\<close> of the \<open>String(140)\<close> column, uncaught, instead of the form being shown
  again.
\<close>

theorem add_message_long_text:
  "MessageForm_validate_on_submit ex_lib (ex_post [(''text'', replicate 141 CHR ''a'')])
   \<and> add_message ex_lib (ex_post [(''text'', replicate 141 CHR ''a'')]) ex_session ex_db
       = Inl DataError"
proof -
  have v: "MessageForm_validate_on_submit ex_lib (ex_post [(''text'', replicate 141 CHR ''a'')])"
    by (simp add: MessageForm_validate_on_submit_def is_submitted_def ex_post_def field_valid_text)
  have t: "formdata (ex_post [(''text'', replicate 141 CHR ''a'')]) ''text''
             = Some (replicate 141 CHR ''a'')"
    by (simp add: ex_post_def)
  have f: "\<not> fits 140 (replicate 141 CHR ''a'')"
    by (simp add: fits_def list_all_iff)
  have n: "\<not> has_nul (replicate 141 CHR ''a'')"
    by (simp add: has_nul_def)
  from v t f n show ?thesis
    by (simp add: add_message_def ex_g_user insert_message_def)
qed

subsection \<open>Following\<close>

lemma follow_eq: "(f = \<lparr>user_being_followed_id = b, user_following_id = a\<rparr>) \<longleftrightarrow>
   user_being_followed_id f = b \<and> user_following_id f = a"
  by auto

lemma like_eq: "(l = \<lparr>l_user_id = a, l_message_id = b\<rparr>) \<longleftrightarrow> l_user_id l = a \<and> l_message_id l = b"
  by auto


lemma message_eq_get_message:
  "message_eq (get_message d i) m \<longleftrightarrow> i = m_id m \<and> i \<in> set (map m_id (messages d))"
proof (cases "get_message d i")
  case None
  then have "i \<notin> set (map m_id (messages d))" by (simp add: get_message_None)
  with None show ?thesis by (simp add: message_eq_def)
next
  case (Some v)
  from get_message_Some [OF Some] show ?thesis
    using Some by (auto simp: message_eq_def)
qed






subsection \<open>Toggling a like\<close>

lemma liked_iff:
  assumes "m_id m \<in> set (map m_id (messages d))"
  shows "list_ex (\<lambda>x. message_eq x m) (liked_messages d u) \<longleftrightarrow>
           \<lparr>l_user_id = u_id u, l_message_id = m_id m\<rparr> \<in> set (likes d)"
proof -
  have "list_ex (\<lambda>x. message_eq x m) (liked_messages d u) \<longleftrightarrow>
          (\<exists>l \<in> set (likes d). l_user_id l = u_id u \<and> l_message_id l = m_id m)"
    using assms
    by (auto simp: list_ex_iff liked_messages_def user_likes_def message_eq_get_message)
  also have "\<dots> \<longleftrightarrow> \<lparr>l_user_id = u_id u, l_message_id = m_id m\<rparr> \<in> set (likes d)"
  proof
    assume "\<exists>l \<in> set (likes d). l_user_id l = u_id u \<and> l_message_id l = m_id m"
    then obtain l where "l \<in> set (likes d)" "l_user_id l = u_id u" "l_message_id l = m_id m"
      by blast
    moreover from this have "l = \<lparr>l_user_id = u_id u, l_message_id = m_id m\<rparr>"
      by (simp add: like_eq)
    ultimately show "\<lparr>l_user_id = u_id u, l_message_id = m_id m\<rparr> \<in> set (likes d)"
      by simp
  next
    assume "\<lparr>l_user_id = u_id u, l_message_id = m_id m\<rparr> \<in> set (likes d)"
    then show "\<exists>l \<in> set (likes d). l_user_id l = u_id u \<and> l_message_id l = m_id m"
      by force
  qed
  finally show ?thesis .
qed

lemma filter_not_like:
  "filter (\<lambda>l. \<not> (l_user_id l = a \<and> l_message_id l = b)) ls =
   filter (\<lambda>l. l \<noteq> \<lparr>l_user_id = a, l_message_id = b\<rparr>) ls"
  by (rule filter_cong) (auto simp: like_eq)

lemma User_toggle_like_present:
  assumes "m_id m \<in> set (map m_id (messages d))"
    and "\<lparr>l_user_id = u_id u, l_message_id = m_id m\<rparr> \<in> set (likes d)"
  shows "User_toggle_like d u m =
           Inr (d\<lparr>likes := filter (\<lambda>l. l \<noteq> \<lparr>l_user_id = u_id u, l_message_id = m_id m\<rparr>) (likes d)\<rparr>)"
  using assms unfolding User_toggle_like_def filter_not_like by (simp add: liked_iff)

lemma User_toggle_like_absent:
  assumes "m_id m \<in> set (map m_id (messages d))"
    and "u_id u \<in> set (map u_id (users d))"
    and "\<lparr>l_user_id = u_id u, l_message_id = m_id m\<rparr> \<notin> set (likes d)"
  shows "User_toggle_like d u m =
           Inr (d\<lparr>likes := likes d @ [\<lparr>l_user_id = u_id u, l_message_id = m_id m\<rparr>]\<rparr>)"
  using assms by (simp add: User_toggle_like_def liked_iff insert_like_def)

lemma User_toggle_like_twice:
  assumes m: "m_id m \<in> set (map m_id (messages d))"
    and u: "u_id u \<in> set (map u_id (users d))"
  shows "\<exists>d1 d2. User_toggle_like d u m = Inr d1 \<and> User_toggle_like d1 u m = Inr d2
           \<and> users d1 = users d \<and> messages d1 = messages d
           \<and> (\<lparr>l_user_id = u_id u, l_message_id = m_id m\<rparr> \<in> set (likes d1)
                \<longleftrightarrow> \<lparr>l_user_id = u_id u, l_message_id = m_id m\<rparr> \<notin> set (likes d))
           \<and> set (likes d2) = set (likes d)
           \<and> users d2 = users d \<and> messages d2 = messages d \<and> follows d2 = follows d"
proof (cases "\<lparr>l_user_id = u_id u, l_message_id = m_id m\<rparr> \<in> set (likes d)")
  case True
  let ?e = "\<lparr>l_user_id = u_id u, l_message_id = m_id m\<rparr>"
  let ?d1 = "d\<lparr>likes := filter (\<lambda>l. l \<noteq> ?e) (likes d)\<rparr>"
  let ?d2 = "?d1\<lparr>likes := likes ?d1 @ [?e]\<rparr>"
  have 1: "User_toggle_like d u m = Inr ?d1"
    using m True by (rule User_toggle_like_present)
  have "User_toggle_like ?d1 u m = Inr ?d2"
    by (rule User_toggle_like_absent) (use m u in simp_all)
  moreover have "set (likes ?d2) = set (likes d)"
    using True by auto
  moreover have "?e \<notin> set (likes ?d1)" by simp
  ultimately show ?thesis using 1 True by auto
next
  case False
  let ?e = "\<lparr>l_user_id = u_id u, l_message_id = m_id m\<rparr>"
  let ?d1 = "d\<lparr>likes := likes d @ [?e]\<rparr>"
  let ?d2 = "?d1\<lparr>likes := filter (\<lambda>l. l \<noteq> ?e) (likes ?d1)\<rparr>"
  have 1: "User_toggle_like d u m = Inr ?d1"
    using m u False by (rule User_toggle_like_absent)
  have "User_toggle_like ?d1 u m = Inr ?d2"
    by (rule User_toggle_like_present) (use m in simp_all)
  moreover have "set (likes ?d2) = set (likes d)"
    using False by auto
  moreover have "?e \<in> set (likes ?d1)" by simp
  ultimately show ?thesis using 1 False by auto
qed

text \<open>
  C7. The logged-in user \<open>u\<close> toggles the like on a message \<open>m\<close> of somebody else in
  two requests, one after the other. Both calls of \<open>User.toggle_like\<close> and both
  requests succeed; after the first the like row of \<open>(u, m)\<close> is present exactly when
  it was absent before, and after the second it is present exactly when it was present
  before: the likes table holds the same rows as at the start, and the other tables are
  untouched.
\<close>

theorem toggle_like_twice:
  assumes r1: "CSRFProtection_validate_on_submit r1"
    and r2: "CSRFProtection_validate_on_submit r2"
    and g: "add_user_to_g sess d = Some u"
    and msg: "get_message d message_id = Some m"
    and other: "m_user_id m \<noteq> u_id u"
  shows "\<exists>d1 d2 url1 url2.
           User_toggle_like d u m = Inr d1 \<and> User_toggle_like d1 u m = Inr d2
           \<and> toggle_like r1 sess d message_id = Inr (Redirect url1, sess, d1)
           \<and> toggle_like r2 sess d1 message_id = Inr (Redirect url2, sess, d2)
           \<and> (\<lparr>l_user_id = u_id u, l_message_id = message_id\<rparr> \<in> set (likes d1)
                \<longleftrightarrow> \<lparr>l_user_id = u_id u, l_message_id = message_id\<rparr> \<notin> set (likes d))
           \<and> (\<lparr>l_user_id = u_id u, l_message_id = message_id\<rparr> \<in> set (likes d2)
                \<longleftrightarrow> \<lparr>l_user_id = u_id u, l_message_id = message_id\<rparr> \<in> set (likes d))
           \<and> set (likes d2) = set (likes d)
           \<and> users d2 = users d \<and> messages d2 = messages d \<and> follows d2 = follows d"
proof -
  from get_message_Some [OF msg] have mid: "m_id m = message_id" and "m \<in> set (messages d)"
    by simp_all
  then have m: "m_id m \<in> set (map m_id (messages d))" by auto
  from g obtain i where "curr_user sess = Some i" "get_user d i = Some u"
    by (auto simp: add_user_to_g_def split: option.splits)
  then have u: "u_id u \<in> set (map u_id (users d))"
    using get_user_Some by fastforce
  from User_toggle_like_twice [OF m u] obtain d1 d2 where
    t1: "User_toggle_like d u m = Inr d1" and t2: "User_toggle_like d1 u m = Inr d2"
    and same1: "users d1 = users d" "messages d1 = messages d"
    and flip: "\<lparr>l_user_id = u_id u, l_message_id = m_id m\<rparr> \<in> set (likes d1)
                \<longleftrightarrow> \<lparr>l_user_id = u_id u, l_message_id = m_id m\<rparr> \<notin> set (likes d)"
    and restored: "set (likes d2) = set (likes d)"
    and same2: "users d2 = users d" "messages d2 = messages d" "follows d2 = follows d"
    by blast
  have g1: "add_user_to_g sess d1 = Some u"
    using g same1 by (cases "curr_user sess") (simp_all add: add_user_to_g_def get_user_def)
  have msg1: "get_message d1 message_id = Some m"
    using msg same1 by (simp add: get_message_def)
  let ?url1 = "case formdata r1 ''came_from'' of None \<Rightarrow> ''/'' | Some s \<Rightarrow> s"
  let ?url2 = "case formdata r2 ''came_from'' of None \<Rightarrow> ''/'' | Some s \<Rightarrow> s"
  have a: "toggle_like r1 sess d message_id = Inr (Redirect ?url1, sess, d1)"
    using r1 g msg other t1 by (simp add: toggle_like_def)
  have b: "toggle_like r2 sess d1 message_id = Inr (Redirect ?url2, sess, d2)"
    using r2 g1 msg1 other t2 by (simp add: toggle_like_def)
  from t1 t2 a b flip restored same2 mid show ?thesis by auto
qed

theorem toggle_like_twice_witness:
  "CSRFProtection_validate_on_submit (ex_post [])
   \<and> add_user_to_g ex_session ex_db = Some ex_u1
   \<and> get_message ex_db 2 = Some ex_m2
   \<and> m_user_id ex_m2 \<noteq> u_id ex_u1
   \<and> (\<exists>d1 d2 url1 url2.
           User_toggle_like ex_db ex_u1 ex_m2 = Inr d1 \<and> User_toggle_like d1 ex_u1 ex_m2 = Inr d2
           \<and> toggle_like (ex_post []) ex_session ex_db 2 = Inr (Redirect url1, ex_session, d1)
           \<and> toggle_like (ex_post []) ex_session d1 2 = Inr (Redirect url2, ex_session, d2)
           \<and> (\<lparr>l_user_id = u_id ex_u1, l_message_id = 2\<rparr> \<in> set (likes d1)
                \<longleftrightarrow> \<lparr>l_user_id = u_id ex_u1, l_message_id = 2\<rparr> \<notin> set (likes ex_db))
           \<and> (\<lparr>l_user_id = u_id ex_u1, l_message_id = 2\<rparr> \<in> set (likes d2)
                \<longleftrightarrow> \<lparr>l_user_id = u_id ex_u1, l_message_id = 2\<rparr> \<in> set (likes ex_db))
           \<and> set (likes d2) = set (likes ex_db)
           \<and> users d2 = users ex_db \<and> messages d2 = messages ex_db \<and> follows d2 = follows ex_db)"
proof -
  have a: "CSRFProtection_validate_on_submit (ex_post [])"
    by (rule ex_post_submitted)
  have b: "add_user_to_g ex_session ex_db = Some ex_u1"
    by (rule ex_g_user)
  have c: "get_message ex_db 2 = Some ex_m2"
    by (simp add: get_message_def ex_db_def ex_m1_def ex_m2_def)
  have e: "m_user_id ex_m2 \<noteq> u_id ex_u1"
    by (simp add: ex_m2_def ex_u1_def)
  from toggle_like_twice [OF a a b c e] a b c e show ?thesis by blast
qed

subsection \<open>Deleting a user\<close>

lemma delete_user_db:
  "session_delete_user (delete_messages_by_user d (u_id u)) u =
     \<lparr>users = filter (\<lambda>v. u_id v \<noteq> u_id u) (users d),
      messages = filter (\<lambda>m. m_user_id m \<noteq> u_id u) (messages d),
      follows = filter (\<lambda>f. user_following_id f \<noteq> u_id u \<and> user_being_followed_id f \<noteq> u_id u)
                  (follows d),
      likes = filter (\<lambda>l. l_user_id l \<noteq> u_id u
                          \<and> l_message_id l \<notin> m_id ` {m \<in> set (messages d). m_user_id m = u_id u})
                (likes d)\<rparr>"
  by (simp add: session_delete_user_def delete_messages_by_user_def Let_def conj_commute
      cong: conj_cong)

lemma delete_user_authorized:
  assumes "CSRFProtection_validate_on_submit r" and "add_user_to_g sess d = Some u"
  shows "delete_user r sess d =
           (Redirect ''/signup'', do_logout sess,
            session_delete_user (delete_messages_by_user d (u_id u)) u)"
  using assms by (simp add: delete_user_def Let_def)

lemma referential_integrity_delete:
  assumes "referential_integrity d"
  shows "referential_integrity (session_delete_user (delete_messages_by_user d (u_id u)) u)"
proof -
  have msgs: "m_user_id m \<in> u_id ` {v \<in> set (users d). u_id v \<noteq> u_id u}"
    if "m \<in> set (messages d)" "m_user_id m \<noteq> u_id u" for m
  proof -
    from assms that(1) obtain v where "v \<in> set (users d)" "u_id v = m_user_id m"
      by (auto simp: referential_integrity_def)
    with that(2) show ?thesis by force
  qed
  have fols: "user_being_followed_id f \<in> u_id ` {v \<in> set (users d). u_id v \<noteq> u_id u}
              \<and> user_following_id f \<in> u_id ` {v \<in> set (users d). u_id v \<noteq> u_id u}"
    if "f \<in> set (follows d)" "user_following_id f \<noteq> u_id u" "user_being_followed_id f \<noteq> u_id u"
    for f
  proof -
    from assms that(1) obtain v w where "v \<in> set (users d)" "u_id v = user_being_followed_id f"
      "w \<in> set (users d)" "u_id w = user_following_id f"
      by (auto simp: referential_integrity_def)
    with that(2,3) show ?thesis by force
  qed
  have lks: "l_user_id l \<in> u_id ` {v \<in> set (users d). u_id v \<noteq> u_id u}
             \<and> l_message_id l \<in> m_id ` {m \<in> set (messages d). m_user_id m \<noteq> u_id u}"
    if "l \<in> set (likes d)" "l_user_id l \<noteq> u_id u"
      "l_message_id l \<notin> m_id ` {m \<in> set (messages d). m_user_id m = u_id u}" for l
  proof -
    from assms that(1) obtain v m where "v \<in> set (users d)" "u_id v = l_user_id l"
      "m \<in> set (messages d)" "m_id m = l_message_id l"
      by (auto simp: referential_integrity_def)
    with that(2,3) show ?thesis by force
  qed
  show ?thesis
    unfolding delete_user_db referential_integrity_def
    using msgs fols lks by simp
qed

text \<open>
  C1. When the logged-in user \<open>u\<close> posts to \<open>/users/delete\<close> with an accepted
  anti-forgery token, the route redirects to \<open>/signup\<close>, logs the user out, and in the
  database it leaves there is no user row with the id of \<open>u\<close>, no message written by
  \<open>u\<close>, no follow row with \<open>u\<close> at either end and no like of \<open>u\<close>. Nothing is
  orphaned: if every foreign key named an existing row before, every foreign key does
  so afterwards (the likes other users gave to the messages of \<open>u\<close> are gone too).
\<close>

theorem delete_user_cascades:
  assumes "CSRFProtection_validate_on_submit r" and "add_user_to_g sess d = Some u"
  shows "\<exists>sess' d'. delete_user r sess d = (Redirect ''/signup'', sess', d')
           \<and> curr_user sess' = None
           \<and> (\<forall>v \<in> set (users d'). u_id v \<noteq> u_id u)
           \<and> (\<forall>m \<in> set (messages d'). m_user_id m \<noteq> u_id u)
           \<and> (\<forall>f \<in> set (follows d'). user_following_id f \<noteq> u_id u
                                      \<and> user_being_followed_id f \<noteq> u_id u)
           \<and> (\<forall>l \<in> set (likes d'). l_user_id l \<noteq> u_id u)
           \<and> (referential_integrity d \<longrightarrow> referential_integrity d')"
proof -
  let ?d' = "session_delete_user (delete_messages_by_user d (u_id u)) u"
  have "delete_user r sess d = (Redirect ''/signup'', do_logout sess, ?d')"
    using assms by (rule delete_user_authorized)
  moreover have "curr_user (do_logout sess) = None"
    by (simp add: do_logout_def)
  moreover have "\<forall>v \<in> set (users ?d'). u_id v \<noteq> u_id u"
    by (simp add: delete_user_db)
  moreover have "\<forall>m \<in> set (messages ?d'). m_user_id m \<noteq> u_id u"
    by (simp add: delete_user_db)
  moreover have "\<forall>f \<in> set (follows ?d'). user_following_id f \<noteq> u_id u
                                      \<and> user_being_followed_id f \<noteq> u_id u"
    by (simp add: delete_user_db)
  moreover have "\<forall>l \<in> set (likes ?d'). l_user_id l \<noteq> u_id u"
    by (simp add: delete_user_db)
  moreover have "referential_integrity d \<longrightarrow> referential_integrity ?d'"
    by (simp add: referential_integrity_delete)
  ultimately show ?thesis by blast
qed

theorem delete_user_cascades_witness:
  "CSRFProtection_validate_on_submit (ex_post [])
   \<and> add_user_to_g ex_session ex_db = Some ex_u1
   \<and> referential_integrity ex_db
   \<and> delete_user (ex_post []) ex_session ex_db =
       (Redirect ''/signup'', \<lparr>curr_user = None, flashes = []\<rparr>,
        \<lparr>users = [ex_u2], messages = [ex_m2], follows = [], likes = []\<rparr>)
   \<and> (\<exists>sess' d'. delete_user (ex_post []) ex_session ex_db = (Redirect ''/signup'', sess', d')
           \<and> curr_user sess' = None
           \<and> (\<forall>v \<in> set (users d'). u_id v \<noteq> u_id ex_u1)
           \<and> (\<forall>m \<in> set (messages d'). m_user_id m \<noteq> u_id ex_u1)
           \<and> (\<forall>f \<in> set (follows d'). user_following_id f \<noteq> u_id ex_u1
                                      \<and> user_being_followed_id f \<noteq> u_id ex_u1)
           \<and> (\<forall>l \<in> set (likes d'). l_user_id l \<noteq> u_id ex_u1)
           \<and> referential_integrity d')"
proof -
  have a: "CSRFProtection_validate_on_submit (ex_post [])"
    by (rule ex_post_submitted)
  have b: "add_user_to_g ex_session ex_db = Some ex_u1"
    by (rule ex_g_user)
  have c: "referential_integrity ex_db"
    by (simp add: referential_integrity_def ex_db_def ex_u1_def ex_u2_def ex_m1_def ex_m2_def)
  have e: "delete_user (ex_post []) ex_session ex_db =
       (Redirect ''/signup'', \<lparr>curr_user = None, flashes = []\<rparr>,
        \<lparr>users = [ex_u2], messages = [ex_m2], follows = [], likes = []\<rparr>)"
  proof -
    have "session_delete_user (delete_messages_by_user ex_db (u_id ex_u1)) ex_u1 =
            \<lparr>users = [ex_u2], messages = [ex_m2], follows = [], likes = []\<rparr>"
      unfolding delete_user_db
      by (simp add: ex_db_def ex_u1_def ex_u2_def ex_m1_def ex_m2_def)
    moreover have "do_logout ex_session = \<lparr>curr_user = None, flashes = []\<rparr>"
      by (simp add: do_logout_def ex_session_def)
    ultimately show ?thesis
      using delete_user_authorized [OF a b] by simp
  qed
  from delete_user_cascades [OF a b] a b c e show ?thesis by auto
qed

subsection \<open>The home feed\<close>

lemma user_ids_map_following_user:
  "\<forall>f \<in> set fs. user_being_followed_id f \<in> set (map u_id (users d)) \<Longrightarrow>
   user_ids (map (following_user d) fs) = Inr (map user_being_followed_id fs)"
proof (induction fs)
  case Nil
  then show ?case by simp
next
  case (Cons f fs)
  then have "get_user d (user_being_followed_id f) \<noteq> None"
    by (simp add: get_user_None)
  then obtain v where v: "get_user d (user_being_followed_id f) = Some v" by blast
  with get_user_Some [OF v] Cons show ?case
    by (simp add: following_user_def)
qed

lemma following_ids:
  assumes "\<forall>f \<in> set (follows d). user_being_followed_id f \<in> set (map u_id (users d))"
  shows "user_ids (following d u) = Inr (map user_being_followed_id (following_users d u))"
  unfolding following_def
  by (rule user_ids_map_following_user) (use assms in \<open>simp add: following_users_def\<close>)

lemma feed_filter:
  "filter (\<lambda>m. m_user_id m \<in> set (map user_being_followed_id (following_users d u) @ [u_id u]))
     (messages d) = own_or_followed_messages d u"
  unfolding own_or_followed_messages_def
proof (rule filter_cong [OF refl])
  fix m
  have "m_user_id m \<in> user_being_followed_id ` set (following_users d u) \<longleftrightarrow>
        \<lparr>user_being_followed_id = m_user_id m, user_following_id = u_id u\<rparr> \<in> set (follows d)"
    (is "?l \<longleftrightarrow> ?r")
  proof
    assume ?l
    then obtain f where "f \<in> set (follows d)" "user_following_id f = u_id u"
      "user_being_followed_id f = m_user_id m"
      by (auto simp: following_users_def)
    moreover from this have "f = \<lparr>user_being_followed_id = m_user_id m, user_following_id = u_id u\<rparr>"
      by (simp add: follow_eq)
    ultimately show ?r by simp
  next
    assume ?r
    then show ?l by (force simp: following_users_def)
  qed
  then show "m_user_id m \<in> set (map user_being_followed_id (following_users d u) @ [u_id u]) \<longleftrightarrow>
        m_user_id m = u_id u
        \<or> \<lparr>user_being_followed_id = m_user_id m, user_following_id = u_id u\<rparr> \<in> set (follows d)"
    by auto
qed

lemma homepage_iff:
  assumes "add_user_to_g sess d = Some u"
    and "\<forall>f \<in> set (follows d). user_being_followed_id f \<in> set (map u_id (users d))"
  shows "homepage sess d res \<longleftrightarrow>
     (\<exists>rows. mset rows = mset (own_or_followed_messages d u)
           \<and> sorted_wrt (\<lambda>a b. m_timestamp b \<le> m_timestamp a) rows
           \<and> res = Inr (Render_template ''home.jinja''
                          [(''messages'', V_messages (take 100 rows))] 200, sess, d))"
proof -
  have "homepage sess d res \<longleftrightarrow>
     (\<exists>msgs. select_messages d (map user_being_followed_id (following_users d u) @ [u_id u]) 100 msgs
           \<and> res = Inr (Render_template ''home.jinja''
                          [(''messages'', V_messages msgs)] 200, sess, d))"
    using assms(1) following_ids [OF assms(2), of u] by (simp add: homepage_def)
  then show ?thesis
    unfolding select_messages_def feed_filter by blast
qed

lemma sorted_desc_exists:
  "\<exists>rows. mset rows = mset (xs :: message list)
        \<and> sorted_wrt (\<lambda>a b. m_timestamp b \<le> m_timestamp a) rows"
proof (intro exI conjI)
  show "mset (rev (sort_key m_timestamp xs)) = mset xs" by simp
  have "sorted (map m_timestamp (sort_key m_timestamp xs))" by (rule sorted_sort_key)
  then show "sorted_wrt (\<lambda>a b. m_timestamp b \<le> m_timestamp a) (rev (sort_key m_timestamp xs))"
    by (simp add: sorted_wrt_rev sorted_map)
qed

lemma take_of_sorted:
  assumes ms: "mset rows = mset cands"
    and srt: "sorted_wrt (\<lambda>a b. m_timestamp b \<le> m_timestamp a) rows"
  shows "length (take n rows) = min n (length cands)
       \<and> mset (take n rows) \<subseteq># mset cands
       \<and> sorted_wrt (\<lambda>a b. m_timestamp b \<le> m_timestamp a) (take n rows)
       \<and> (\<forall>x \<in> set (take n rows). \<forall>y \<in># mset cands - mset (take n rows).
             m_timestamp y \<le> m_timestamp x)
       \<and> (length cands \<le> n \<longrightarrow> mset (take n rows) = mset cands)"
proof (intro conjI)
  have len: "length rows = length cands"
    using ms by (rule mset_eq_length)
  then show "length (take n rows) = min n (length cands)" by simp
  have split: "mset rows = mset (take n rows) + mset (drop n rows)"
    by (metis append_take_drop_id mset_append)
  then show "mset (take n rows) \<subseteq># mset cands"
    using ms by (metis mset_subset_eq_add_left)
  have app: "sorted_wrt (\<lambda>a b. m_timestamp b \<le> m_timestamp a) (take n rows @ drop n rows)"
    using srt by simp
  then show "sorted_wrt (\<lambda>a b. m_timestamp b \<le> m_timestamp a) (take n rows)"
    unfolding sorted_wrt_append by simp
  have rest: "mset cands - mset (take n rows) = mset (drop n rows)"
    using split ms by simp
  show "\<forall>x \<in> set (take n rows). \<forall>y \<in># mset cands - mset (take n rows).
             m_timestamp y \<le> m_timestamp x"
    using app unfolding rest sorted_wrt_append by simp
  show "length cands \<le> n \<longrightarrow> mset (take n rows) = mset cands"
    using len ms by simp
qed


lemma ex_follows_exist:
  "\<forall>f \<in> set (follows ex_db). user_being_followed_id f \<in> set (map u_id (users ex_db))"
  by (simp add: ex_db_def ex_u1_def ex_u2_def)

lemma ex_own_or_followed: "own_or_followed_messages ex_db ex_u1 = [ex_m1, ex_m2]"
  by (simp add: own_or_followed_messages_def ex_db_def ex_u1_def ex_m1_def ex_m2_def)

lemma ex_feed_either_order:
  "homepage ex_session ex_db
     (Inr (Render_template ''home.jinja'' [(''messages'', V_messages [ex_m1, ex_m2])] 200,
           ex_session, ex_db))"
  "homepage ex_session ex_db
     (Inr (Render_template ''home.jinja'' [(''messages'', V_messages [ex_m2, ex_m1])] 200,
           ex_session, ex_db))"
proof -
  have ts: "m_timestamp ex_m1 = m_timestamp ex_m2"
    by (simp add: ex_m1_def ex_m2_def)
  show "homepage ex_session ex_db
     (Inr (Render_template ''home.jinja'' [(''messages'', V_messages [ex_m1, ex_m2])] 200,
           ex_session, ex_db))"
    unfolding homepage_iff [OF ex_g_user ex_follows_exist] ex_own_or_followed
    by (rule exI [of _ "[ex_m1, ex_m2]"]) (simp add: ts)
  show "homepage ex_session ex_db
     (Inr (Render_template ''home.jinja'' [(''messages'', V_messages [ex_m2, ex_m1])] 200,
           ex_session, ex_db))"
    unfolding homepage_iff [OF ex_g_user ex_follows_exist] ex_own_or_followed
    by (rule exI [of _ "[ex_m2, ex_m1]"]) (simp add: ts)
qed

text \<open>
  C4, as the code has it. For a logged-in user \<open>u\<close> (every followed id naming a user
  row, as the foreign key demands) the home page has an answer, and every answer it can
  give is the home template with a list of messages that: has 100 entries, or all the
  messages written by \<open>u\<close> or by a user \<open>u\<close> follows when these are fewer; is drawn from
  those messages, none taken twice; never increases in timestamp; leaves out no message
  newer than one it contains; and is all of those messages when there are at most 100.
  The order among messages of equal timestamp is not determined.
\<close>

theorem homepage_feed:
  assumes "add_user_to_g sess d = Some u"
    and "\<forall>f \<in> set (follows d). user_being_followed_id f \<in> set (map u_id (users d))"
  shows "(\<exists>res. homepage sess d res)
       \<and> (\<forall>res. homepage sess d res \<longrightarrow>
            (\<exists>msgs. res = Inr (Render_template ''home.jinja''
                                [(''messages'', V_messages msgs)] 200, sess, d)
               \<and> length msgs = min 100 (length (own_or_followed_messages d u))
               \<and> mset msgs \<subseteq># mset (own_or_followed_messages d u)
               \<and> sorted_wrt (\<lambda>a b. m_timestamp b \<le> m_timestamp a) msgs
               \<and> (\<forall>x \<in> set msgs. \<forall>y \<in># mset (own_or_followed_messages d u) - mset msgs.
                     m_timestamp y \<le> m_timestamp x)
               \<and> (length (own_or_followed_messages d u) \<le> 100 \<longrightarrow>
                     mset msgs = mset (own_or_followed_messages d u))))"
proof (intro conjI allI impI)
  from sorted_desc_exists [of "own_or_followed_messages d u"]
  show "\<exists>res. homepage sess d res"
    unfolding homepage_iff [OF assms] by blast
next
  fix res
  assume "homepage sess d res"
  then obtain rows where ms: "mset rows = mset (own_or_followed_messages d u)"
    and srt: "sorted_wrt (\<lambda>a b. m_timestamp b \<le> m_timestamp a) rows"
    and res: "res = Inr (Render_template ''home.jinja''
                          [(''messages'', V_messages (take 100 rows))] 200, sess, d)"
    unfolding homepage_iff [OF assms] by blast
  from take_of_sorted [OF ms srt, of 100] res
  show "\<exists>msgs. res = Inr (Render_template ''home.jinja''
                                [(''messages'', V_messages msgs)] 200, sess, d)
               \<and> length msgs = min 100 (length (own_or_followed_messages d u))
               \<and> mset msgs \<subseteq># mset (own_or_followed_messages d u)
               \<and> sorted_wrt (\<lambda>a b. m_timestamp b \<le> m_timestamp a) msgs
               \<and> (\<forall>x \<in> set msgs. \<forall>y \<in># mset (own_or_followed_messages d u) - mset msgs.
                     m_timestamp y \<le> m_timestamp x)
               \<and> (length (own_or_followed_messages d u) \<le> 100 \<longrightarrow>
                     mset msgs = mset (own_or_followed_messages d u))"
    by blast
qed

theorem homepage_feed_witness:
  "add_user_to_g ex_session ex_db = Some ex_u1
   \<and> list_all (\<lambda>f. user_being_followed_id f \<in> set (map u_id (users ex_db))) (follows ex_db)
   \<and> homepage ex_session ex_db
       (Inr (Render_template ''home.jinja'' [(''messages'', V_messages [ex_m2, ex_m1])] 200,
             ex_session, ex_db))
   \<and> (\<exists>msgs. [ex_m2, ex_m1] = msgs
         \<and> length msgs = min 100 (length (own_or_followed_messages ex_db ex_u1))
         \<and> mset msgs \<subseteq># mset (own_or_followed_messages ex_db ex_u1)
         \<and> sorted_wrt (\<lambda>a b. m_timestamp b \<le> m_timestamp a) msgs
         \<and> (\<forall>x \<in> set msgs. \<forall>y \<in># mset (own_or_followed_messages ex_db ex_u1) - mset msgs.
               m_timestamp y \<le> m_timestamp x)
         \<and> (length (own_or_followed_messages ex_db ex_u1) \<le> 100 \<longrightarrow>
               mset msgs = mset (own_or_followed_messages ex_db ex_u1)))"
proof -
  note a = ex_g_user and b = ex_follows_exist and c = ex_feed_either_order(2)
  from homepage_feed [OF a b] c
  have "\<exists>msgs. (Inr (Render_template ''home.jinja'' [(''messages'', V_messages [ex_m2, ex_m1])] 200,
             ex_session, ex_db) :: exn + outcome)
            = Inr (Render_template ''home.jinja'' [(''messages'', V_messages msgs)] 200,
                   ex_session, ex_db)
         \<and> length msgs = min 100 (length (own_or_followed_messages ex_db ex_u1))
         \<and> mset msgs \<subseteq># mset (own_or_followed_messages ex_db ex_u1)
         \<and> sorted_wrt (\<lambda>a b. m_timestamp b \<le> m_timestamp a) msgs
         \<and> (\<forall>x \<in> set msgs. \<forall>y \<in># mset (own_or_followed_messages ex_db ex_u1) - mset msgs.
               m_timestamp y \<le> m_timestamp x)
         \<and> (length (own_or_followed_messages ex_db ex_u1) \<le> 100 \<longrightarrow>
               mset msgs = mset (own_or_followed_messages ex_db ex_u1))"
    by blast
  then show ?thesis using a b c by (simp add: list_all_iff)
qed

text \<open>
  C4, as the specification states it, fails. \<open>u1\<close> follows \<open>u2\<close>; their messages
  \<open>m1\<close> (id 1) and \<open>m2\<close> (id 2) carry the same timestamp. The query orders by timestamp
  only, so the feed of \<open>u1\<close> may list \<open>m1\<close> before \<open>m2\<close> and may list \<open>m2\<close> before
  \<open>m1\<close>: the ids do not break the tie, in either direction.
\<close>

theorem homepage_tie_order_counterexample:
  "homepage ex_session ex_db
     (Inr (Render_template ''home.jinja'' [(''messages'', V_messages [ex_m1, ex_m2])] 200,
           ex_session, ex_db))
   \<and> homepage ex_session ex_db
     (Inr (Render_template ''home.jinja'' [(''messages'', V_messages [ex_m2, ex_m1])] 200,
           ex_session, ex_db))
   \<and> m_timestamp ex_m1 = m_timestamp ex_m2 \<and> m_id ex_m1 < m_id ex_m2"
  using ex_feed_either_order by (simp add: ex_m1_def ex_m2_def)

subsection \<open>Signing up with a taken username\<close>

lemma fits_short: "length s \<le> n \<Longrightarrow> fits n s"
  by (simp add: fits_def)

lemma insert_user_taken:
  assumes "length (u_email u) \<le> 50" and "length (u_username u) \<le> 30"
    and "length (u_image_url u) \<le> 255" and "length (u_header_image_url u) \<le> 255"
    and "length (u_location u) \<le> 30" and "length (u_password u) \<le> 100"
    and "\<not> has_nul (u_email u)" and "\<not> has_nul (u_username u)"
    and "\<not> has_nul (u_image_url u)" and "\<not> has_nul (u_header_image_url u)"
    and "\<not> has_nul (u_bio u)" and "\<not> has_nul (u_location u)" and "\<not> has_nul (u_password u)"
    and "u_username u \<in> set (map u_username (users d))
         \<or> u_email u \<in> set (map u_email (users d))"
  shows "insert_user d u = Inl IntegrityError"
  using assms by (auto simp: insert_user_def fits_short Let_def)

lemma default_lengths:
  "length DEFAULT_IMAGE_URL \<le> 255" "length DEFAULT_HEADER_IMAGE_URL \<le> 255"
  by (simp_all add: DEFAULT_IMAGE_URL_def DEFAULT_HEADER_IMAGE_URL_def)

lemma default_no_nul:
  "\<not> has_nul DEFAULT_IMAGE_URL" "\<not> has_nul DEFAULT_HEADER_IMAGE_URL" "\<not> has_nul []"
  by (simp_all add: has_nul_def DEFAULT_IMAGE_URL_def DEFAULT_HEADER_IMAGE_URL_def)

text \<open>
  Where the duplicate signup is answered as the docstring of \<open>signup\<close> says. The form
  validates, no submitted value holds a NUL character, bcrypt returns a hash of at most
  100 characters without NUL, a submitted image URL has at most 255 characters, and the
  username is taken: the signup form is shown again with the flash
  ``Username already taken'' and the database is the one the request was given.
\<close>

lemma signup_username_taken:
  assumes valid: "UserAddForm_validate_on_submit L r"
    and name: "formdata r ''username'' = Some name"
    and taken: "name \<in> set (map u_username (users d))"
    and pw: "formdata r ''password'' = Some pw"
    and hash: "generate_password_hash L pw = Inr h" "length h \<le> 100" "\<not> has_nul h"
    and img: "\<forall>s. formdata r ''image_url'' = Some s \<longrightarrow> length s \<le> 255"
    and nul: "\<forall>k s. formdata r k = Some s \<longrightarrow> \<not> has_nul s"
  shows "signup L r sess d =
           Inr (Render_template ''users/signup.jinja'' [(''form'', V_form (UserAddForm_fields r))] 200,
                flash ''Username already taken'' ''danger'' (do_logout sess), d)
         \<and> (distinct (map u_username (users d)) \<longrightarrow>
               length (filter (\<lambda>v. u_username v = name) (users d)) = 1)"
proof
  from valid name have nlen: "length name \<le> 30"
    by (auto simp: UserAddForm_validate_on_submit_def field_valid_username)
  from valid obtain email where email: "formdata r ''email'' = Some email" "length email \<le> 50"
    by (auto simp: UserAddForm_validate_on_submit_def field_valid_email)
  let ?image = "case formdata r ''image_url'' of
                  None \<Rightarrow> DEFAULT_IMAGE_URL
                | Some s \<Rightarrow> if s = [] then DEFAULT_IMAGE_URL else s"
  let ?u = "\<lparr>u_id = identity r, u_email = email, u_username = name, u_image_url = ?image,
             u_header_image_url = DEFAULT_HEADER_IMAGE_URL, u_bio = [], u_location = [],
             u_password = h\<rparr>"
  have ilen: "length ?image \<le> 255"
    using img default_lengths(1) by (simp split: option.splits)
  have inul: "\<not> has_nul ?image"
    using nul default_no_nul(1) by (simp split: option.splits)
  have nnul: "\<not> has_nul name" "\<not> has_nul email"
    using nul name email(1) by blast+
  have u: "User_signup L (identity r) name email pw ?image = Inr ?u"
    using hash(1) by (simp add: User_signup_def)
  have "insert_user d ?u = Inl IntegrityError"
    by (rule insert_user_taken)
       (use nlen email(2) ilen hash(2,3) taken default_lengths(2) inul nnul default_no_nul(2,3)
         in simp_all)
  with valid name email(1) pw u
  show "signup L r sess d =
           Inr (Render_template ''users/signup.jinja'' [(''form'', V_form (UserAddForm_fields r))] 200,
                flash ''Username already taken'' ''danger'' (do_logout sess), d)"
    by (simp add: signup_def Let_def)
next
  show "distinct (map u_username (users d)) \<longrightarrow>
               length (filter (\<lambda>v. u_username v = name) (users d)) = 1"
  proof
    assume dist: "distinct (map u_username (users d))"
    from taken obtain v where v: "v \<in> set (users d)" "u_username v = name" by auto
    from filter_key_unique [OF dist v(1)] v(2)
    show "length (filter (\<lambda>v. u_username v = name) (users d)) = 1"
      by simp
  qed
qed

lemma ex_dupe_valid: "UserAddForm_validate_on_submit ex_lib ex_dupe"
  by (simp add: UserAddForm_validate_on_submit_def is_submitted_def ex_dupe_def ex_post_def
      field_valid_username field_valid_email field_valid_password ex_lib_def)
     (simp add: field_valid_def UserAddForm_image_url_def)

lemma signup_username_taken_example:
  "signup ex_lib ex_dupe ex_session ex_db =
           Inr (Render_template ''users/signup.jinja''
                  [(''form'', V_form [(''username'', Some ''u1''),
                                      (''email'', Some ''newEmail@email.com''),
                                      (''password'', Some ''password''),
                                      (''image_url'', Some [])])] 200,
                \<lparr>curr_user = None, flashes = [(''danger'', ''Username already taken'')]\<rparr>, ex_db)
   \<and> length (filter (\<lambda>v. u_username v = ''u1'') (users ex_db)) = 1"
proof -
  have b: "formdata ex_dupe ''username'' = Some ''u1''"
    by (simp add: ex_dupe_def ex_post_def)
  have c: "''u1'' \<in> set (map u_username (users ex_db))"
    by (simp add: ex_db_def ex_u1_def)
  have e: "formdata ex_dupe ''password'' = Some ''password''"
    by (simp add: ex_dupe_def ex_post_def)
  have f: "generate_password_hash ex_lib ''password'' = Inr ''$2b$password''"
    "length ''$2b$password'' \<le> 100" "\<not> has_nul ''$2b$password''"
    by (simp_all add: ex_lib_def has_nul_def)
  have g: "\<forall>s. formdata ex_dupe ''image_url'' = Some s \<longrightarrow> length s \<le> 255"
    by (simp add: ex_dupe_def ex_post_def)
  have n: "\<forall>k s. formdata ex_dupe k = Some s \<longrightarrow> \<not> has_nul s"
    by (simp add: ex_dupe_def ex_post_def has_nul_def)
  have h: "distinct (map u_username (users ex_db))"
    by (simp add: ex_db_def ex_u1_def ex_u2_def)
  have i: "UserAddForm_fields ex_dupe = [(''username'', Some ''u1''),
                                      (''email'', Some ''newEmail@email.com''),
                                      (''password'', Some ''password''),
                                      (''image_url'', Some [])]"
    by (simp add: UserAddForm_fields_def field_data_def is_submitted_def ex_dupe_def ex_post_def)
  have j: "flash ''Username already taken'' ''danger'' (do_logout ex_session) =
             \<lparr>curr_user = None, flashes = [(''danger'', ''Username already taken'')]\<rparr>"
    by (simp add: flash_def do_logout_def ex_session_def)
  from signup_username_taken [OF ex_dupe_valid b c e f g n, of ex_session] h i j
  show ?thesis by simp
qed

text \<open>
  C3. The username \<open>u1\<close> is taken, and a signup with it is posted whose image URL is 256
  tab characters. The form validates: \<open>Optional()\<close> ends the chain of the image URL on
  a blank value, so its \<open>Length(max=255)\<close> is never asked. The tabs are kept as the
  image URL (they are not the empty string), the INSERT fails on the \<open>String(255)\<close>
  column with a \<open>DataError\<close>, and \<open>signup\<close> catches \<open>IntegrityError\<close> only: the
  request ends in the uncaught exception, not in ``Username already taken''.
\<close>

theorem signup_taken_username_blank_image_url:
  "UserAddForm_validate_on_submit ex_lib ex_dupe_blank_image
   \<and> formdata ex_dupe_blank_image ''username'' = Some ''u1''
   \<and> ''u1'' \<in> set (map u_username (users ex_db))
   \<and> signup ex_lib ex_dupe_blank_image ex_session ex_db = Inl DataError"
proof -
  have blank: "list_all isspace (replicate 256 (CHR 0x09))"
    by (simp add: list_all_iff isspace_def)
  have img: "formdata ex_dupe_blank_image ''image_url'' = Some (replicate 256 (CHR 0x09))"
    by (simp add: ex_dupe_blank_image_def ex_post_def)
  have "field_valid ex_lib UserAddForm_image_url (formdata ex_dupe_blank_image ''image_url'')"
    unfolding img using blank by (simp add: field_valid_def UserAddForm_image_url_def)
  then have v: "UserAddForm_validate_on_submit ex_lib ex_dupe_blank_image"
    by (simp add: UserAddForm_validate_on_submit_def is_submitted_def ex_dupe_blank_image_def
        ex_post_def field_valid_username field_valid_email field_valid_password ex_lib_def)
  have n: "formdata ex_dupe_blank_image ''username'' = Some ''u1''"
    "formdata ex_dupe_blank_image ''email'' = Some ''newEmail@email.com''"
    "formdata ex_dupe_blank_image ''password'' = Some ''password''"
    by (simp_all add: ex_dupe_blank_image_def ex_post_def)
  have t: "''u1'' \<in> set (map u_username (users ex_db))"
    by (simp add: ex_db_def ex_u1_def)
  have ne: "replicate 256 (CHR 0x09) \<noteq> []"
    by simp
  have u: "User_signup ex_lib (identity ex_dupe_blank_image) ''u1'' ''newEmail@email.com''
             ''password'' (replicate 256 (CHR 0x09)) =
           Inr \<lparr>u_id = identity ex_dupe_blank_image, u_email = ''newEmail@email.com'',
                u_username = ''u1'', u_image_url = replicate 256 (CHR 0x09),
                u_header_image_url = DEFAULT_HEADER_IMAGE_URL, u_bio = [], u_location = [],
                u_password = ''$2b$password''\<rparr>"
    by (simp add: User_signup_def ex_lib_def)
  have nofit: "\<not> fits 255 (replicate 256 (CHR 0x09))"
    by (simp add: fits_def list_all_iff)
  have nonul: "\<not> has_nul (replicate 256 (CHR 0x09))" "\<not> has_nul ''newEmail@email.com''"
    "\<not> has_nul ''u1''" "\<not> has_nul ''$2b$password''"
    by (simp_all add: has_nul_def)
  have ins: "insert_user ex_db
               \<lparr>u_id = identity ex_dupe_blank_image, u_email = ''newEmail@email.com'',
                u_username = ''u1'', u_image_url = replicate 256 (CHR 0x09),
                u_header_image_url = DEFAULT_HEADER_IMAGE_URL, u_bio = [], u_location = [],
                u_password = ''$2b$password''\<rparr> = Inl DataError"
    using nofit nonul default_no_nul by (simp add: insert_user_def)
  have "signup ex_lib ex_dupe_blank_image ex_session ex_db = Inl DataError"
    using v n img ne u ins by (simp add: signup_def Let_def)
  with v n(1) t show ?thesis by simp
qed

end
